theory Spec2Isabelle
  imports Complex_Main "HOL-Library.Word" "HOL-Library.AList"
begin

section \<open>The JBD Bluetooth driver of battery\_switch.py\<close>

text \<open>
  A shallow embedding of \<^verbatim>\<open>src/battery_switch.py\<close>: the read-request encoder
  \<^verbatim>\<open>_jbd_command\<close>, the class \<^verbatim>\<open>JbdBt\<close> with its notification handler, the
  request \<^verbatim>\<open>_q\<close>, the decoders \<^verbatim>\<open>fetch\<close> and \<^verbatim>\<open>fetch_voltages\<close>, and
  \<^verbatim>\<open>set_switch\<close> with its nested helpers \<^verbatim>\<open>jbd_checksum\<close> and \<^verbatim>\<open>jbd_message\<close>.

  Python's \<^verbatim>\<open>bytes\<close> and \<^verbatim>\<open>bytearray\<close> are lists of 8-bit words, Python's
  unbounded integers are \<^typ>\<open>int\<close>, and every exception the code can raise is a
  value of the type \<open>error\<close>, returned on the left of a sum.
\<close>

subsection \<open>Bytes and the Python primitives the driver uses\<close>

type_synonym byte = "8 word"
type_synonym bytes = "byte list"

datatype error =
    ValueError        \<comment> \<open>\<^verbatim>\<open>bytes([...])\<close> with an element outside 0..255\<close>
  | OverflowError     \<comment> \<open>\<^verbatim>\<open>int.to_bytes\<close> of a value that does not fit\<close>
  | IndexError        \<comment> \<open>indexing a byte sequence out of range\<close>
  | TypeError         \<comment> \<open>unpacking \<^verbatim>\<open>None\<close> as a mapping\<close>
  | AssertionError    \<comment> \<open>a failed \<^verbatim>\<open>assert\<close>\<close>
  | TimeoutError      \<comment> \<open>the awaited response did not arrive in time\<close>
  | WaiterBusy        \<comment> \<open>a waiter for the command code is already registered\<close>

text \<open>\<^verbatim>\<open>bytes(xs)\<close> for a list of integers: each must lie in 0..255.\<close>

definition bytes_of :: "int list \<Rightarrow> error + bytes" where
  "bytes_of xs =
     (if list_all (\<lambda>x. 0 \<le> x \<and> x < 256) xs then Inr (map word_of_int xs)
      else Inl ValueError)"

text \<open>\<^verbatim>\<open>int.from_bytes(bs, 'big')\<close>, unsigned; the empty sequence gives 0.\<close>

definition from_bytes :: "bytes \<Rightarrow> int" where
  "from_bytes bs = foldl (\<lambda>acc b. acc * 256 + uint b) 0 bs"

text \<open>\<^verbatim>\<open>int.from_bytes(bs, byteorder='big', signed=True)\<close>: two's complement over
  the bits that \<open>bs\<close> has.\<close>

definition from_bytes_signed :: "bytes \<Rightarrow> int" where
  "from_bytes_signed bs =
     (let n = from_bytes bs; bits = 8 * length bs
      in if bs \<noteq> [] \<and> 2 ^ (bits - 1) \<le> n then n - 2 ^ bits else n)"

text \<open>\<^verbatim>\<open>n.to_bytes(2, byteorder='big')\<close>: unsigned, so a negative value and a value
  of more than 16 bits both raise.\<close>

definition to_bytes2 :: "int \<Rightarrow> error + bytes" where
  "to_bytes2 n =
     (if n < 0 \<or> 65536 \<le> n then Inl OverflowError
      else Inr [word_of_int (n div 256), word_of_int (n mod 256)])"

text \<open>The slice \<^verbatim>\<open>xs[a:b]\<close> for indices \<open>0 \<le> a\<close> and \<open>0 \<le> b\<close>: it never
  raises, and is cut short where the sequence ends.\<close>

definition slice :: "nat \<Rightarrow> nat \<Rightarrow> 'a list \<Rightarrow> 'a list" where
  "slice a b xs = take (b - a) (drop a xs)"

text \<open>\<^verbatim>\<open>buf.endswith(b'w')\<close>: the letter w is the byte 0x77.\<close>

definition endswith_w :: "bytes \<Rightarrow> bool" where
  "endswith_w buf = (buf \<noteq> [] \<and> last buf = 0x77)"

subsection \<open>The read-request encoder\<close>

text \<open>\<^verbatim>\<open>_jbd_command\<close> (line 11).\<close>

definition jbd_command :: "int \<Rightarrow> error + bytes" where
  "jbd_command command =
     bytes_of [0xDD, 0xA5, command, 0x00, 0xFF, 0xFF - (command - 1), 0x77]"

subsection \<open>Checksum and write-request encoder\<close>

text \<open>\<^verbatim>\<open>jbd_checksum\<close> (line 83), nested in \<^verbatim>\<open>set_switch\<close>. The loop runs over
  \<^verbatim>\<open>data + bytes([len(data), cmd])\<close>, so building that sequence can already raise.\<close>

definition jbd_checksum :: "int \<Rightarrow> bytes \<Rightarrow> error + bytes" where
  "jbd_checksum cmd data =
     (case bytes_of [int (length data), cmd] of
        Inl e \<Rightarrow> Inl e
      | Inr suffix \<Rightarrow> to_bytes2 (foldl (\<lambda>crc i. crc - uint i) 0x10000 (data @ suffix)))"

text \<open>\<^verbatim>\<open>jbd_message\<close> (line 89).\<close>

definition jbd_message :: "int \<Rightarrow> int \<Rightarrow> bytes \<Rightarrow> error + bytes" where
  "jbd_message status_bit cmd data =
     (case bytes_of [0xDD, status_bit, cmd, int (length data)] of
        Inl e \<Rightarrow> Inl e
      | Inr header \<Rightarrow>
          (case jbd_checksum cmd data of
             Inl e \<Rightarrow> Inl e
           | Inr crc \<Rightarrow> Inr (header @ data @ crc @ [0x77])))"

subsection \<open>The driver's state\<close>

text \<open>
  The fields of a \<^verbatim>\<open>JbdBt\<close> object that the driver reads and writes:
  \<^verbatim>\<open>_buffer\<close>, \<^verbatim>\<open>_switches\<close> (\<^verbatim>\<open>None\<close> or a dictionary, kept as an association
  list in insertion order) and \<^verbatim>\<open>_last_response\<close>. Two more fields stand for the
  collaborators of the base class \<^verbatim>\<open>BtBms\<close>, whose module is not part of the
  repository: \<open>pending\<close> is the set of command codes with a registered waiter in
  \<^verbatim>\<open>_fetch_futures\<close>, and \<open>written\<close> lists what \<^verbatim>\<open>client.write_gatt_char\<close> was
  given, oldest first.
\<close>

record jbd_bt =
  p_buffer :: bytes
  p_switches :: "(string \<times> bool) list option"
  p_last_response :: "bytes option"
  pending :: "int set"
  written :: "bytes list"

text \<open>The object as \<^verbatim>\<open>__init__\<close> leaves it.\<close>

definition init :: jbd_bt where
  "init = \<lparr>p_buffer = [], p_switches = None, p_last_response = None,
           pending = {}, written = []\<rparr>"

subsection \<open>Frame assembly\<close>

text \<open>
  \<^verbatim>\<open>_notification_handler\<close> (line 27). The result is what the handler hands to
  \<^verbatim>\<open>_fetch_futures.set_result\<close>: nothing, or the command byte read at index 1
  together with the whole buffer. Reading index 1 of a one-byte buffer raises
  before the buffer is cleared.
\<close>

definition notification_handler ::
  "jbd_bt \<Rightarrow> bytes \<Rightarrow> (error + (int \<times> bytes) option) \<times> jbd_bt" where
  "notification_handler st data =
     (let st1 = st\<lparr>p_buffer := p_buffer st @ data\<rparr> in
      if endswith_w (p_buffer st1) then
        (if length (p_buffer st1) \<le> 1 then (Inl IndexError, st1)
         else
           let command = uint (p_buffer st1 ! 1);
               buf = p_buffer st1
           in (Inr (Some (command, buf)),
               st1\<lparr>p_buffer := [], p_last_response := Some buf\<rparr>))
      else (Inr None, st1))"

text \<open>The handler run on a sequence of chunks in order; the outcome of every call
  is kept.\<close>

fun feed :: "jbd_bt \<Rightarrow> bytes list \<Rightarrow> (error + (int \<times> bytes) option) list \<times> jbd_bt" where
  "feed st [] = ([], st)"
| "feed st (c # cs) =
     (case notification_handler st c of
        (r, st1) \<Rightarrow> (case feed st1 cs of (rs, st2) \<Rightarrow> (r # rs, st2)))"

text \<open>The complete-frame events among the outcomes.\<close>

fun events :: "(error + (int \<times> bytes) option) list \<Rightarrow> (int \<times> bytes) list" where
  "events [] = []"
| "events (Inr (Some ev) # rs) = ev # events rs"
| "events (_ # rs) = events rs"

subsection \<open>Request and response\<close>

definition TIMEOUT :: nat where
  "TIMEOUT = 16"

text \<open>
  Modelled from the spec: the Response Dispatcher behind \<^verbatim>\<open>_fetch_futures\<close>
  (\<^verbatim>\<open>acquire\<close>, \<^verbatim>\<open>wait_for\<close>, \<^verbatim>\<open>set_result\<close>), which the class inherits from
  \<^verbatim>\<open>BtBms\<close> of the module \<^verbatim>\<open>bt\<close>; that module is not among the repository's
  files. By the spec the request suspends until the frame assembler yields a
  complete frame whose command field matches, and is then resolved with the whole
  frame, or until the timeout elapses, and then fails with \<open>TimeoutError\<close>; a
  frame for another command code resolves nothing.

  The notifications that arrive while the request waits are a list of chunks, each
  with its arrival time in time units since the wait began, in arrival order. A
  chunk that arrives at the deadline or later is not seen by this request. Each
  chunk that is seen goes through \<open>notification_handler\<close>, the callback of the
  code; a callback that raises resolves nothing.
\<close>

fun wait_for :: "jbd_bt \<Rightarrow> int \<Rightarrow> nat \<Rightarrow> (nat \<times> bytes) list \<Rightarrow> (error + bytes) \<times> jbd_bt" where
  "wait_for st cmd timeout [] = (Inl TimeoutError, st)"
| "wait_for st cmd timeout ((t, chunk) # rest) =
     (if timeout \<le> t then (Inl TimeoutError, st)
      else
        (case notification_handler st chunk of
           (Inr (Some (command, buf)), st1) \<Rightarrow>
             if command = cmd then (Inr buf, st1) else wait_for st1 cmd timeout rest
         | (_, st1) \<Rightarrow> wait_for st1 cmd timeout rest))"

text \<open>
  \<^verbatim>\<open>_q\<close> (line 44). The \<^verbatim>\<open>with\<close> block registers the waiter and removes it on
  every exit, also when the body raises. Modelled from the spec: a second waiter
  for a command code that has one fails fast (\<open>WaiterBusy\<close>).
\<close>

definition q :: "jbd_bt \<Rightarrow> int \<Rightarrow> (nat \<times> bytes) list \<Rightarrow> (error + bytes) \<times> jbd_bt" where
  "q st cmd arrivals =
     (if cmd \<in> pending st then (Inl WaiterBusy, st)
      else
        let st1 = st\<lparr>pending := insert cmd (pending st)\<rparr> in
        (case jbd_command cmd of
           Inl e \<Rightarrow> (Inl e, st1\<lparr>pending := pending st1 - {cmd}\<rparr>)
         | Inr msg \<Rightarrow>
             (case wait_for (st1\<lparr>written := written st1 @ [msg]\<rparr>) cmd TIMEOUT arrivals of
                (r, st2) \<Rightarrow> (r, st2\<lparr>pending := pending st2 - {cmd}\<rparr>))))"

subsection \<open>Telemetry decoder\<close>

text \<open>
  The keyword arguments that \<^verbatim>\<open>fetch\<close> passes to \<^verbatim>\<open>BmsSample\<close> (a class of the
  module \<^verbatim>\<open>bms\<close>, not part of the repository). Python's true division \<^verbatim>\<open>/\<close> of
  integers is the exact quotient here; its rounding to a binary floating-point
  number is not modelled.
\<close>

record bms_sample =
  voltage :: real
  current :: real
  charge :: real
  capacity :: real
  soc :: int
  num_cycles :: int
  temperatures :: "real list"
  switches :: "(string \<times> bool) list"

text \<open>Lines 51 to 69 of \<^verbatim>\<open>fetch\<close>: the sample decoded from a response. Only
  \<^verbatim>\<open>buf[19]\<close> is an index; every other field is read through a slice.\<close>

definition sample_of :: "bytes \<Rightarrow> error + bms_sample" where
  "sample_of response =
     (let buf = drop 4 response;
          num_cell = from_bytes (slice 21 22 buf);
          num_temp = from_bytes (slice 22 23 buf);
          mos_byte = from_bytes (slice 20 21 buf)
      in if length buf \<le> 19 then Inl IndexError
         else Inr
           \<lparr>voltage = real_of_int (from_bytes (slice 0 2 buf)) / 100,
            current = real_of_int (- from_bytes_signed (slice 2 4 buf)) / 100,
            charge = real_of_int (from_bytes (slice 4 6 buf)) / 100,
            capacity = real_of_int (from_bytes (slice 6 8 buf)) / 100,
            soc = uint (buf ! 19),
            num_cycles = from_bytes (slice 8 10 buf),
            temperatures =
              map (\<lambda>i. real_of_int (from_bytes (slice (23 + i * 2) (i * 2 + 25) buf) - 2731) / 10)
                [0 ..< nat num_temp],
            switches =
              [(''discharge'', mos_byte = 2 \<or> mos_byte = 3),
               (''charge'', mos_byte = 1 \<or> mos_byte = 3)]\<rparr>)"

text \<open>\<^verbatim>\<open>fetch\<close> (line 49).\<close>

definition fetch :: "jbd_bt \<Rightarrow> (nat \<times> bytes) list \<Rightarrow> (error + bms_sample) \<times> jbd_bt" where
  "fetch st arrivals =
     (case q st 0x03 arrivals of
        (Inl e, st1) \<Rightarrow> (Inl e, st1)
      | (Inr buf, st1) \<Rightarrow>
          (case sample_of buf of
             Inl e \<Rightarrow> (Inl e, st1)
           | Inr sample \<Rightarrow> (Inr sample, st1\<lparr>p_switches := Some (switches sample)\<rparr>)))"

subsection \<open>Cell voltage decoder\<close>

text \<open>Lines 76 to 78 of \<^verbatim>\<open>fetch_voltages\<close>. The byte \<^verbatim>\<open>buf[3]\<close> is at most 255,
  so \<^verbatim>\<open>buf[3] / 2\<close> is a multiple of one half that \<^verbatim>\<open>int\<close> truncates: the
  integer quotient.\<close>

definition voltages_of :: "bytes \<Rightarrow> error + int list" where
  "voltages_of buf =
     (if length buf \<le> 3 then Inl IndexError
      else
        let num_cell = uint (buf ! 3) div 2
        in Inr (map (\<lambda>i. from_bytes (slice (4 + i * 2) (i * 2 + 6) buf)) [0 ..< nat num_cell]))"

text \<open>\<^verbatim>\<open>fetch_voltages\<close> (line 74).\<close>

definition fetch_voltages :: "jbd_bt \<Rightarrow> (nat \<times> bytes) list \<Rightarrow> (error + int list) \<times> jbd_bt" where
  "fetch_voltages st arrivals =
     (case q st 0x04 arrivals of
        (Inl e, st1) \<Rightarrow> (Inl e, st1)
      | (Inr buf, st1) \<Rightarrow>
          (case voltages_of buf of
             Inl e \<Rightarrow> (Inl e, st1)
           | Inr voltages \<Rightarrow> (Inr voltages, st1)))"

subsection \<open>Switch controller\<close>

text \<open>Lines 96 to 104 of \<^verbatim>\<open>set_switch\<close>: the control byte for the tentative
  dictionary. \<^verbatim>\<open>sum\<close> counts \<^verbatim>\<open>True\<close> as 1 and \<^verbatim>\<open>False\<close> as 0.\<close>

definition control_byte :: "(string \<times> bool) list \<Rightarrow> string \<Rightarrow> bool \<Rightarrow> int" where
  "control_byte new_switches switch state =
     (let switches_sum = sum_list (map (\<lambda>(k, v). if v then 1 else (0::int)) new_switches)
      in if switches_sum = 2 then 0x00
         else if switches_sum = 0 then 0x03
         else if (switch = ''charge'' \<and> \<not> state) \<or> (switch = ''discharge'' \<and> state) then 0x01
         else 0x02)"

text \<open>
  \<^verbatim>\<open>set_switch\<close> (line 80). \<^verbatim>\<open>not self._switches\<close> holds for \<^verbatim>\<open>None\<close> and for
  an empty dictionary; the dictionary display \<^verbatim>\<open>{**self._switches, switch: state}\<close>
  replaces the value of a key that is present and adds the key at the end
  otherwise. The message is written and no response is awaited.
\<close>

definition set_switch ::
  "jbd_bt \<Rightarrow> string \<Rightarrow> bool \<Rightarrow> (nat \<times> bytes) list \<Rightarrow> (error + unit) \<times> jbd_bt" where
  "set_switch st switch state arrivals =
     (if switch \<notin> {''charge'', ''discharge''} then (Inl AssertionError, st)
      else
        (case (if p_switches st = None \<or> p_switches st = Some []
               then (case fetch st arrivals of
                       (Inl e, st1) \<Rightarrow> (Inl e, st1)
                     | (Inr sample, st1) \<Rightarrow> (Inr (), st1))
               else (Inr (), st)) of
           (Inl e, st1) \<Rightarrow> (Inl e, st1)
         | (Inr u, st1) \<Rightarrow>
             (case p_switches st1 of
                None \<Rightarrow> (Inl TypeError, st1)
              | Some cur \<Rightarrow>
                  let new_switches = AList.update switch state cur;
                      tc = control_byte new_switches switch state
                  in (case bytes_of [0x00, tc] of
                        Inl e \<Rightarrow> (Inl e, st1)
                      | Inr payload \<Rightarrow>
                          (case jbd_message 0x5A 0xE1 payload of
                             Inl e \<Rightarrow> (Inl e, st1)
                           | Inr data \<Rightarrow> (Inr (), st1\<lparr>written := written st1 @ [data]\<rparr>))))))"

subsection \<open>Reference values from the specification\<close>

text \<open>The control-byte table of the Switch Controller, by the tentative charge and
  discharge states, as the specification gives it.\<close>

definition table_byte :: "bool \<Rightarrow> bool \<Rightarrow> int" where
  "table_byte chg dis =
     (if chg \<and> dis then 0x00
      else if \<not> chg \<and> \<not> dis then 0x03
      else if \<not> chg \<and> dis then 0x01
      else 0x02)"

section \<open>Properties\<close>

subsection \<open>Bytes, sums and the checksum arithmetic\<close>

lemma uint_byte_of_nat: "n \<le> 255 \<Longrightarrow> uint (word_of_nat n :: byte) = int n"
  by (simp add: uint_nat unat_of_nat)

lemma bytes_of_ok:
  "list_all (\<lambda>x. 0 \<le> x \<and> x < 256) xs \<Longrightarrow>
   map_sum id (map uint) (bytes_of xs) = Inr xs"
  by (induction xs) (auto simp: bytes_of_def uint_word_of_int list_all_iff intro!: map_idI)

lemma foldl_sub: "foldl (\<lambda>crc i. crc - uint i) c xs = c - sum_list (map uint xs)"
  by (induction xs arbitrary: c) auto

lemma sum_bytes_le: "sum_list (map uint (data :: bytes)) \<le> 255 * int (length data)"
proof (induction data)
  case Nil
  then show ?case by simp
next
  case (Cons b bs)
  have "uint b < 256" using uint_bounded [of b] by simp
  with Cons show ?case by simp
qed

lemma sum_bytes_ge: "0 \<le> sum_list (map uint (data :: bytes))"
  by (induction data) auto

text \<open>With at most 255 data bytes the subtracted total is at most
  \<open>255 + 255 + 255 * 255 = 65535\<close>, and it is 0 only for command 0 and no data.\<close>

lemma checksum_sum_range:
  assumes "0 \<le> cmd" "cmd \<le> 255" "length data \<le> 255" "\<not> (cmd = 0 \<and> data = [])"
  shows "0 < cmd + int (length data) + sum_list (map uint (data :: bytes))"
    and "cmd + int (length data) + sum_list (map uint data) \<le> 65535"
proof -
  have "sum_list (map uint data) \<le> 255 * int (length data)" by (rule sum_bytes_le)
  also have "\<dots> \<le> 255 * 255" using assms(3) by simp
  finally show "cmd + int (length data) + sum_list (map uint data) \<le> 65535"
    using assms by simp
  show "0 < cmd + int (length data) + sum_list (map uint data)"
  proof (cases "data = []")
    case True
    then show ?thesis using assms by simp
  next
    case False
    then have "0 < int (length data)" by simp
    then show ?thesis using assms sum_bytes_ge [of data] by linarith
  qed
qed

lemma checksum_all:
  assumes "0 \<le> cmd" "cmd \<le> 255"
  shows "map_sum id (map uint) (jbd_checksum cmd data) =
     (if 255 < length data then Inl ValueError
      else if cmd = 0 \<and> data = [] then Inl OverflowError
      else Inr [(0x10000 - (cmd + int (length data) + sum_list (map uint data))) div 256,
                (0x10000 - (cmd + int (length data) + sum_list (map uint data))) mod 256])"
proof (cases "255 < length data")
  case True
  then show ?thesis by (simp add: jbd_checksum_def bytes_of_def)
next
  case False
  let ?s = "cmd + int (length data) + sum_list (map uint data)"
  have len: "length data \<le> 255" using False by simp
  have b: "bytes_of [int (length data), cmd] = Inr [word_of_nat (length data), word_of_int cmd]"
    using assms len by (simp add: bytes_of_def)
  have crc: "foldl (\<lambda>crc i. crc - uint i) 0x10000
               (data @ [word_of_nat (length data), word_of_int cmd :: byte]) = 0x10000 - ?s"
    using assms False by (simp add: foldl_sub uint_word_of_int uint_byte_of_nat)
  show ?thesis
  proof (cases "cmd = 0 \<and> data = []")
    case True
    then show ?thesis by (simp add: jbd_checksum_def bytes_of_def to_bytes2_def)
  next
    case nz: False
    have "0 < ?s" "?s \<le> 65535" using checksum_sum_range [OF assms len nz] by simp_all
    then have r: "0 \<le> 0x10000 - ?s" "0x10000 - ?s < 65536" by simp_all
    have d: "0 \<le> (0x10000 - ?s) div 256" "(0x10000 - ?s) div 256 < 256" using r by simp_all
    have "jbd_checksum cmd data = to_bytes2 (0x10000 - ?s)"
      unfolding jbd_checksum_def b crc [symmetric] by simp
    then show ?thesis using False nz r d
      by (simp add: to_bytes2_def uint_word_of_int)
  qed
qed

lemma jbd_command_ok:
  assumes "1 \<le> c" "c \<le> 255"
  shows "map_sum id (map uint) (jbd_command c) =
           Inr [0xDD, 0xA5, c, 0x00, 0xFF, 0xFF - (c - 1), 0x77]"
  unfolding jbd_command_def using assms by (intro bytes_of_ok) simp

lemma read_checksum_bytes:
  fixes c :: int
  assumes "1 \<le> c" "c \<le> 255"
  shows "(65536 - c) div 256 = 255" "(65536 - c) mod 256 = 256 - c"
proof -
  have e: "65536 - c = (256 - c) + 256 * 255" by simp
  have r: "0 \<le> 256 - c" "256 - c < 256" using assms by simp_all
  have "(65536 - c) div 256 = ((256 - c) + 256 * 255) div 256" by (simp only: e)
  also have "\<dots> = 255 + (256 - c) div 256" by simp
  also have "(256 - c) div 256 = 0" using r by (rule div_pos_pos_trivial)
  finally show "(65536 - c) div 256 = 255" by simp
  have "(65536 - c) mod 256 = ((256 - c) + 256 * 255) mod 256" by (simp only: e)
  also have "\<dots> = (256 - c) mod 256" by (simp only: mod_mult_self2)
  also have "\<dots> = 256 - c" using r by (rule mod_pos_pos_trivial)
  finally show "(65536 - c) mod 256 = 256 - c" .
qed

subsection \<open>Checksum engine\<close>

text \<open>
  C2, as amended. For a command byte \<open>cmd\<close> (0 to 255), \<^verbatim>\<open>jbd_checksum\<close> returns
  the big-endian two bytes of \<open>(0x10000 - (cmd + length data + sum data)) mod 0x10000\<close>
  whenever the data has at most 255 bytes and it is not the case that the command
  is 0 and the data empty. For command 0 with empty data the value \<open>0x10000\<close>
  does not fit two bytes and the function raises \<open>OverflowError\<close>; with more than
  255 data bytes the length is no byte and it raises \<open>ValueError\<close>. The bytes are
  read as integers by \<open>uint\<close>.
\<close>

theorem jbd_checksum_value:
  assumes "0 \<le> cmd" "cmd \<le> 255"
  shows "map_sum id (map uint) (jbd_checksum cmd data) =
     (if 255 < length data then Inl ValueError
      else if cmd = 0 \<and> data = [] then Inl OverflowError
      else
        let crc = (0x10000 - (cmd + int (length data) + sum_list (map uint data))) mod 0x10000
        in Inr [crc div 256, crc mod 256])"
proof (cases "255 < length data \<or> (cmd = 0 \<and> data = [])")
  case True
  then show ?thesis using checksum_all [OF assms, of data] by auto
next
  case False
  then have c: "length data \<le> 255" "\<not> (cmd = 0 \<and> data = [])" by auto
  let ?s = "cmd + int (length data) + sum_list (map uint data)"
  have "0 < ?s" "?s \<le> 65535" using checksum_sum_range [OF assms c] by simp_all
  then have "(0x10000 - ?s) mod 0x10000 = 0x10000 - ?s"
    by (intro mod_pos_pos_trivial) simp_all
  then show ?thesis using checksum_all [OF assms, of data] c by (simp add: Let_def)
qed

text \<open>The spec's example: command \<open>0xE1\<close> with data \<open>[0x00, 0x00]\<close> gives
  \<open>0xFF1D\<close>.\<close>

theorem jbd_checksum_value_witness:
  "(0::int) \<le> 0xE1 \<and> (0xE1::int) \<le> 255 \<and>
   map_sum id (map uint) (jbd_checksum 0xE1 [0x00, 0x00]) =
     Inr [((0x10000 - 0xE1 - 2 - 0 - 0) mod 0x10000) div 256,
          ((0x10000 - 0xE1 - 2 - 0 - 0) mod 0x10000) mod 256] \<and>
   jbd_checksum 0xE1 [0x00, 0x00] = Inr [0xFF, 0x1D]"
  using jbd_checksum_value [of "0xE1" "[0x00, 0x00]"]
  by (simp add: jbd_checksum_def bytes_of_def to_bytes2_def)

text \<open>C2 as stated fails for command 0 with empty data: the claimed result is the
  encoding of \<open>0x10000 mod 0x10000 = 0\<close>, the code raises.\<close>

theorem jbd_checksum_zero_counterexample:
  "jbd_checksum 0 [] = Inl OverflowError \<and>
   jbd_checksum 0 [] \<noteq>
     Inr [word_of_int (((0x10000 - (0 + int (length ([]::bytes)) + sum_list (map uint ([]::bytes)))) mod 0x10000) div 256),
          word_of_int (((0x10000 - (0 + int (length ([]::bytes)) + sum_list (map uint ([]::bytes)))) mod 0x10000) mod 256)]"
  by (simp add: jbd_checksum_def bytes_of_def to_bytes2_def)

subsection \<open>Command encoder\<close>

text \<open>
  C6. For every command code \<open>c\<close> from 1 to 255, \<^verbatim>\<open>_jbd_command\<close> returns the
  seven bytes \<open>0xDD, 0xA5, c, 0x00, 0xFF, (0xFF - (c - 1)) mod 256, 0x77\<close>, and the
  two checksum bytes in it are what \<^verbatim>\<open>jbd_checksum\<close> returns for \<open>c\<close> with empty
  data.
\<close>

theorem jbd_command_read_frame:
  assumes "1 \<le> c" "c \<le> 255"
  shows "map_sum id (map uint) (jbd_command c) =
           Inr [0xDD, 0xA5, c, 0x00, 0xFF, (0xFF - (c - 1)) mod 256, 0x77] \<and>
         map_sum id (map uint) (jbd_checksum c []) = Inr [0xFF, (0xFF - (c - 1)) mod 256]"
proof -
  have m: "(0xFF - (c - 1)) mod 256 = 0xFF - (c - 1)"
    using assms by (intro mod_pos_pos_trivial) simp_all
  have k: "map_sum id (map uint) (jbd_checksum c []) = Inr [255, 256 - c]"
    using checksum_all [of c "[]"] assms read_checksum_bytes [OF assms] by simp
  have "0xFF - (c - 1) = 256 - c" by simp
  then show ?thesis
    using jbd_command_ok [OF assms] k m by simp
qed

theorem jbd_command_read_frame_witness:
  "(1::int) \<le> 3 \<and> (3::int) \<le> 255 \<and>
   map_sum id (map uint) (jbd_command 3) = Inr [0xDD, 0xA5, 3, 0x00, 0xFF, 0xFD, 0x77] \<and>
   map_sum id (map uint) (jbd_checksum 3 []) = Inr [0xFF, 0xFD]"
  using jbd_command_read_frame [of 3] by simp

text \<open>
  C10. \<^verbatim>\<open>_jbd_command\<close> returns a frame exactly for the command codes 1 to 255.
  For command 0 the sixth element is \<open>0xFF - (0 - 1) = 0x100\<close>, no byte, and
  \<^verbatim>\<open>bytes\<close> raises \<open>ValueError\<close>; for a command from 1 to 255 the result has seven
  bytes, begins \<open>0xDD, 0xA5\<close> and ends \<open>0x77\<close>.
\<close>

theorem jbd_command_domain:
  "jbd_command 0 = Inl ValueError \<and> (0xFF - (0 - 1) :: int) = 0x100 \<and>
   ((\<exists>f. jbd_command c = Inr f) \<longleftrightarrow> 1 \<le> c \<and> c \<le> 255) \<and>
   (1 \<le> c \<and> c \<le> 255 \<longrightarrow>
      (\<exists>f. jbd_command c = Inr f \<and> length f = 7 \<and>
           f ! 0 = 0xDD \<and> f ! 1 = 0xA5 \<and> last f = 0x77))"
  by (auto simp: jbd_command_def bytes_of_def)

theorem jbd_command_domain_witness:
  "jbd_command 0 = Inl ValueError \<and>
   (\<exists>f. jbd_command 4 = Inr f \<and> length f = 7 \<and> f ! 0 = 0xDD \<and> f ! 1 = 0xA5 \<and> last f = 0x77) \<and>
   jbd_command 4 = Inr [0xDD, 0xA5, 0x04, 0x00, 0xFF, 0xFC, 0x77]"
  using jbd_command_domain [of 4] by (simp add: jbd_command_def bytes_of_def)

subsection \<open>Frame assembler\<close>

lemma handler_quiet:
  assumes "\<not> endswith_w (p_buffer st @ data)"
  shows "notification_handler st data = (Inr None, st\<lparr>p_buffer := p_buffer st @ data\<rparr>)"
  using assms by (simp add: notification_handler_def Let_def)

lemma handler_frame:
  assumes "endswith_w (p_buffer st @ data)" "1 < length (p_buffer st @ data)"
  shows "notification_handler st data =
     (Inr (Some (uint ((p_buffer st @ data) ! 1), p_buffer st @ data)),
      st\<lparr>p_buffer := [], p_last_response := Some (p_buffer st @ data)\<rparr>)"
  using assms by (simp add: notification_handler_def Let_def)

lemma endswith_w_append:
  "c \<noteq> [] \<Longrightarrow> endswith_w (b @ c) = endswith_w c"
  by (simp add: endswith_w_def)

text \<open>Chunks none of which ends with the terminator only accumulate.\<close>

lemma feed_quiet:
  assumes "\<forall>c \<in> set cs. c \<noteq> [] \<and> last c \<noteq> 0x77"
  shows "feed st cs = (map (\<lambda>c. Inr None) cs, st\<lparr>p_buffer := p_buffer st @ concat cs\<rparr>)"
  using assms
proof (induction cs arbitrary: st)
  case Nil
  then show ?case by simp
next
  case (Cons c cs)
  then have "\<not> endswith_w (p_buffer st @ c)"
    by (simp add: endswith_w_def)
  then have h: "notification_handler st c = (Inr None, st\<lparr>p_buffer := p_buffer st @ c\<rparr>)"
    by (rule handler_quiet)
  from Cons show ?case by (simp add: h)
qed

lemma events_quiet: "events (map (\<lambda>c. Inr None) cs) = []"
  by (induction cs) auto

lemma feed_append:
  "feed st (cs @ ds) =
     (case feed st cs of (rs, st1) \<Rightarrow> (case feed st1 ds of (rs2, st2) \<Rightarrow> (rs @ rs2, st2)))"
  by (induction cs arbitrary: st) (auto split: prod.splits)

lemma events_append: "events (rs @ rs2) = events rs @ events rs2"
  by (induction rs rule: events.induct) auto

text \<open>
  C1, as amended. Start from an empty buffer and feed the chunks of a frame that
  begins \<open>0xDD\<close> and ends \<open>0x77\<close>, every chunk non-empty, where no chunk but the
  last ends with the byte \<open>0x77\<close>. Then every call but the last yields nothing, the
  last call yields the one complete-frame event, whose content is the whole frame
  and whose command code is the byte at index 1, the buffer is empty afterwards
  and the frame is kept as the last response.
\<close>

theorem feed_single_frame:
  assumes buf: "p_buffer st = []"
    and ne: "chunks \<noteq> []"
    and chunk: "\<forall>c \<in> set chunks. c \<noteq> []"
    and inner: "\<forall>c \<in> set (butlast chunks). last c \<noteq> 0x77"
    and first: "hd (concat chunks) = 0xDD"
    and fin: "last (concat chunks) = 0x77"
  shows "fst (feed st chunks) =
           map (\<lambda>c. Inr None) (butlast chunks) @
             [Inr (Some (uint (concat chunks ! 1), concat chunks))] \<and>
         events (fst (feed st chunks)) = [(uint (concat chunks ! 1), concat chunks)] \<and>
         p_buffer (snd (feed st chunks)) = [] \<and>
         p_last_response (snd (feed st chunks)) = Some (concat chunks)"
proof -
  let ?frame = "concat chunks"
  let ?init = "butlast chunks"
  have split: "chunks = ?init @ [last chunks]" using ne by simp
  have lne: "last chunks \<noteq> []" using chunk ne by simp
  have fr: "?frame = concat ?init @ last chunks"
    by (subst split) simp
  have quiet: "\<forall>c \<in> set ?init. c \<noteq> [] \<and> last c \<noteq> 0x77"
    using chunk inner by (auto dest: in_set_butlastD)
  have f1: "feed st ?init = (map (\<lambda>c. Inr None) ?init, st\<lparr>p_buffer := concat ?init\<rparr>)"
    using feed_quiet [OF quiet, of st] buf by simp
  have fne: "?frame \<noteq> []" using fr lne by simp
  have e: "endswith_w ?frame" using fin fne by (simp add: endswith_w_def)
  have len: "1 < length ?frame"
  proof (rule ccontr)
    assume "\<not> 1 < length ?frame"
    with fne have "length ?frame = 1" by (cases ?frame) auto
    then obtain x where x: "?frame = [x]" by (cases ?frame) auto
    with first fin show False by simp
  qed
  let ?st1 = "st\<lparr>p_buffer := concat ?init\<rparr>"
  have h: "notification_handler ?st1 (last chunks) =
      (Inr (Some (uint (?frame ! 1), ?frame)),
       ?st1\<lparr>p_buffer := [], p_last_response := Some ?frame\<rparr>)"
    using handler_frame [of ?st1 "last chunks"] e len fr by simp
  have "feed st chunks = feed st (?init @ [last chunks])" using split by simp
  also have "\<dots> = (map (\<lambda>c. Inr None) ?init @ [Inr (Some (uint (?frame ! 1), ?frame))],
       ?st1\<lparr>p_buffer := [], p_last_response := Some ?frame\<rparr>)"
    by (simp add: feed_append f1 h)
  finally have r: "feed st chunks =
      (map (\<lambda>c. Inr None) ?init @ [Inr (Some (uint (?frame ! 1), ?frame))],
       ?st1\<lparr>p_buffer := [], p_last_response := Some ?frame\<rparr>)" .
  show ?thesis
    by (simp add: r events_append events_quiet)
qed

text \<open>A cell-voltage response fed one byte at a time, and in three chunks.\<close>

theorem feed_single_frame_witness:
  "events (fst (feed init [[0xDD], [0x04], [0x00], [0x02], [0x0C], [0xE4], [0xFF], [0x0E], [0x77]])) =
     [(4, [0xDD, 0x04, 0x00, 0x02, 0x0C, 0xE4, 0xFF, 0x0E, 0x77])] \<and>
   p_buffer (snd (feed init [[0xDD], [0x04], [0x00], [0x02], [0x0C], [0xE4], [0xFF], [0x0E], [0x77]])) = [] \<and>
   events (fst (feed init [[0xDD, 0x04, 0x00], [0x02, 0x0C, 0xE4, 0xFF], [0x0E, 0x77]])) =
     [(4, [0xDD, 0x04, 0x00, 0x02, 0x0C, 0xE4, 0xFF, 0x0E, 0x77])] \<and>
   p_buffer (snd (feed init [[0xDD, 0x04, 0x00], [0x02, 0x0C, 0xE4, 0xFF], [0x0E, 0x77]])) = []"
  using feed_single_frame [of init "[[0xDD], [0x04], [0x00], [0x02], [0x0C], [0xE4], [0xFF], [0x0E], [0x77]]"]
    feed_single_frame [of init "[[0xDD, 0x04, 0x00], [0x02, 0x0C, 0xE4, 0xFF], [0x0E, 0x77]]"]
  by (simp add: init_def)

text \<open>
  C1 as stated fails when a chunk ends on a \<open>0x77\<close> inside the frame: the response
  for one cell at 3191 mV (\<open>0x0C77\<close>) split after that byte, or fed one byte at a
  time, gives two events, neither of them the whole frame.
\<close>

theorem feed_interior_terminator_counterexample:
  "hd [0xDD, 0x04, 0x00, 0x02, 0x0C, 0x77, 0xFF, 0x7B, 0x77 :: byte] = 0xDD \<and>
   last [0xDD, 0x04, 0x00, 0x02, 0x0C, 0x77, 0xFF, 0x7B, 0x77 :: byte] = 0x77 \<and>
   concat [[0xDD, 0x04, 0x00, 0x02, 0x0C, 0x77], [0xFF, 0x7B, 0x77 :: byte]] =
     [0xDD, 0x04, 0x00, 0x02, 0x0C, 0x77, 0xFF, 0x7B, 0x77] \<and>
   events (fst (feed init [[0xDD, 0x04, 0x00, 0x02, 0x0C, 0x77], [0xFF, 0x7B, 0x77]])) =
     [(4, [0xDD, 0x04, 0x00, 0x02, 0x0C, 0x77]), (0x7B, [0xFF, 0x7B, 0x77])] \<and>
   events (fst (feed init [[0xDD], [0x04], [0x00], [0x02], [0x0C], [0x77], [0xFF], [0x7B], [0x77]])) =
     [(4, [0xDD, 0x04, 0x00, 0x02, 0x0C, 0x77]), (0x7B, [0xFF, 0x7B, 0x77])]"
  by (simp add: init_def notification_handler_def endswith_w_def Let_def)

subsection \<open>Switch controller\<close>

lemma control_byte_charge:
  "control_byte (AList.update ''charge'' b [(''discharge'', d), (''charge'', c)]) ''charge'' b
     = table_byte b d"
  by (cases b; cases d) (simp_all add: control_byte_def table_byte_def)

lemma control_byte_discharge:
  "control_byte (AList.update ''discharge'' b [(''discharge'', d), (''charge'', c)]) ''discharge'' b
     = table_byte c b"
  by (cases b; cases c) (simp_all add: control_byte_def table_byte_def)

lemma control_byte_range: "0 \<le> control_byte ns sw b \<and> control_byte ns sw b \<le> 3"
  by (simp add: control_byte_def Let_def)

lemma switch_message:
  assumes "0 \<le> tc" "tc \<le> 3"
  shows "\<exists>data. jbd_message 0x5A 0xE1 [0x00, word_of_int tc] = Inr data \<and>
           map uint data = [0xDD, 0x5A, 0xE1, 0x02, 0x00, tc, 0xFF, 0x1D - tc, 0x77]"
proof -
  have "tc = 0 \<or> tc = 1 \<or> tc = 2 \<or> tc = 3" using assms by arith
  then show ?thesis
  proof (elim disjE)
    assume "tc = 0"
    then show ?thesis
      by (simp add: jbd_message_def jbd_checksum_def bytes_of_def to_bytes2_def)
  next
    assume "tc = 1"
    then show ?thesis
      by (simp add: jbd_message_def jbd_checksum_def bytes_of_def to_bytes2_def)
  next
    assume "tc = 2"
    then show ?thesis
      by (simp add: jbd_message_def jbd_checksum_def bytes_of_def to_bytes2_def)
  next
    assume "tc = 3"
    then show ?thesis
      by (simp add: jbd_message_def jbd_checksum_def bytes_of_def to_bytes2_def)
  qed
qed


lemma set_switch_cached:
  assumes "sw = ''charge'' \<or> sw = ''discharge''"
    and "p_switches st = Some cur" and "cur \<noteq> []"
  shows "set_switch st sw b arrivals =
     (case bytes_of [0x00, control_byte (AList.update sw b cur) sw b] of
        Inl e \<Rightarrow> (Inl e, st)
      | Inr payload \<Rightarrow>
          (case jbd_message 0x5A 0xE1 payload of
             Inl e \<Rightarrow> (Inl e, st)
           | Inr data \<Rightarrow> (Inr (), st\<lparr>written := written st @ [data]\<rparr>)))"
proof -
  have v: "(sw \<notin> {''charge'', ''discharge''}) = False" using assms(1) by blast
  have w: "(p_switches st = None \<or> p_switches st = Some []) = False"
    using assms(2,3) by simp
  show ?thesis
    unfolding set_switch_def Let_def v w
    by (simp add: assms(2) del: update.simps)
qed


lemma set_switch_writes:
  assumes "sw = ''charge'' \<or> sw = ''discharge''"
    and "p_switches st = Some cur" and "cur \<noteq> []"
  shows "\<exists>data. set_switch st sw b arrivals = (Inr (), st\<lparr>written := written st @ [data]\<rparr>) \<and>
           length data = 9 \<and>
           uint (data ! 5) = control_byte (AList.update sw b cur) sw b"
proof -
  define tc where "tc = control_byte (AList.update sw b cur) sw b"
  have r: "0 \<le> tc" "tc \<le> 3"
    unfolding tc_def using control_byte_range [of "AList.update sw b cur" sw b] by simp_all
  then have p: "bytes_of [0x00, tc] = Inr [0x00, word_of_int tc]"
    by (simp add: bytes_of_def)
  from switch_message [OF r] obtain data where
    m: "jbd_message 0x5A 0xE1 [0x00, word_of_int tc] = Inr data"
    and u: "map uint data = [0xDD, 0x5A, 0xE1, 0x02, 0x00, tc, 0xFF, 0x1D - tc, 0x77]"
    by (elim exE conjE)
  have "set_switch st sw b arrivals =
     (case bytes_of [0x00, tc] of
        Inl e \<Rightarrow> (Inl e, st)
      | Inr payload \<Rightarrow>
          (case jbd_message 0x5A 0xE1 payload of
             Inl e \<Rightarrow> (Inl e, st)
           | Inr data \<Rightarrow> (Inr (), st\<lparr>written := written st @ [data]\<rparr>)))"
    unfolding tc_def by (rule set_switch_cached [OF assms])
  then have s: "set_switch st sw b arrivals = (Inr (), st\<lparr>written := written st @ [data]\<rparr>)"
    by (simp add: p m)
  from u have "length (map uint data) = 9" by simp
  then have l: "length data = 9" by simp
  from u have "map uint data ! 5 = tc" by simp
  with l have t: "uint (data ! 5) = tc" by simp
  from s l t show ?thesis unfolding tc_def by blast
qed


text \<open>
  C3. Let the cached state be the dictionary with \<open>discharge = d\<close> and
  \<open>charge = c\<close>. For each of the two switch names and each desired state \<open>b\<close>, the
  control byte computed from the dictionary with that one key overwritten is the
  table's entry for the tentative pair: both on \<open>0x00\<close>, both off \<open>0x03\<close>, charge
  off and discharge on \<open>0x01\<close>, charge on and discharge off \<open>0x02\<close>. It is the
  sixth byte of the nine-byte message that \<^verbatim>\<open>set_switch\<close> writes.
\<close>

theorem switch_control_byte_table:
  "control_byte (AList.update ''charge'' b [(''discharge'', d), (''charge'', c)]) ''charge'' b
     = table_byte b d \<and>
   control_byte (AList.update ''discharge'' b [(''discharge'', d), (''charge'', c)]) ''discharge'' b
     = table_byte c b \<and>
   table_byte True True = 0x00 \<and> table_byte False False = 0x03 \<and>
   table_byte False True = 0x01 \<and> table_byte True False = 0x02 \<and>
   (p_switches st = Some [(''discharge'', d), (''charge'', c)] \<longrightarrow>
      (\<exists>data. set_switch st ''charge'' b arrivals =
                 (Inr (), st\<lparr>written := written st @ [data]\<rparr>) \<and>
               length data = 9 \<and> uint (data ! 5) = table_byte b d) \<and>
      (\<exists>data. set_switch st ''discharge'' b arrivals =
                 (Inr (), st\<lparr>written := written st @ [data]\<rparr>) \<and>
               length data = 9 \<and> uint (data ! 5) = table_byte c b))"
proof -
  have t: "table_byte True True = 0x00 \<and> table_byte False False = 0x03 \<and>
           table_byte False True = 0x01 \<and> table_byte True False = 0x02"
    by (simp add: table_byte_def)
  have w: "(\<exists>data. set_switch st ''charge'' b arrivals =
                 (Inr (), st\<lparr>written := written st @ [data]\<rparr>) \<and>
               length data = 9 \<and> uint (data ! 5) = table_byte b d) \<and>
      (\<exists>data. set_switch st ''discharge'' b arrivals =
                 (Inr (), st\<lparr>written := written st @ [data]\<rparr>) \<and>
               length data = 9 \<and> uint (data ! 5) = table_byte c b)"
    if a: "p_switches st = Some [(''discharge'', d), (''charge'', c)]"
  proof -
    have n: "[(''discharge'', d), (''charge'', c)] \<noteq> []" by simp
    have 1: "''charge'' = ''charge'' \<or> ''charge'' = ''discharge''" by simp
    have 2: "''discharge'' = ''charge'' \<or> ''discharge'' = ''discharge''" by simp
    from set_switch_writes [OF 1 a n, of b arrivals] set_switch_writes [OF 2 a n, of b arrivals]
    show ?thesis
      unfolding control_byte_charge control_byte_discharge by (rule conjI)
  qed
  from control_byte_charge [of b d c] control_byte_discharge [of b d c] t w
  show ?thesis by blast
qed

theorem switch_control_byte_table_witness:
  "set_switch (init\<lparr>p_switches := Some [(''discharge'', True), (''charge'', True)]\<rparr>)
       ''charge'' False [] =
     (Inr (), init\<lparr>p_switches := Some [(''discharge'', True), (''charge'', True)],
                  written := [[0xDD, 0x5A, 0xE1, 0x02, 0x00, 0x01, 0xFF, 0x1C, 0x77]]\<rparr>) \<and>
   table_byte False True = 0x01"
  using switch_control_byte_table [of False True True
      "init\<lparr>p_switches := Some [(''discharge'', True), (''charge'', True)]\<rparr>" "[]"]
  by (simp add: set_switch_def init_def control_byte_def jbd_message_def jbd_checksum_def
      bytes_of_def to_bytes2_def table_byte_def)

end
